theory Spec2Isabelle
  imports Main "HOL-Library.Multiset"
begin

section \<open>Python values used by the server\<close>

text \<open>
  A Python \<open>str\<close> is modelled as a \<open>string\<close>: a list of characters, each a code point
  below 256. \<open>len\<close> is \<open>length\<close>.
\<close>

definition LF :: char where
  "LF = CHR 0x0A"

definition CR :: char where
  "CR = CHR 0x0D"

text \<open>\<open>str(n)\<close> and \<open>f"{n}"\<close> for an integer: the decimal digits, with a minus sign.\<close>

definition digit_char :: "nat \<Rightarrow> char" where
  "digit_char d = char_of (48 + d)"

function str_nat :: "nat \<Rightarrow> string" where
  "str_nat n = (if n < 10 then [digit_char n] else str_nat (n div 10) @ [digit_char (n mod 10)])"
  by pat_completeness auto
termination
  by (relation "measure id") auto

definition str_int :: "int \<Rightarrow> string" where
  "str_int i = (if i < 0 then CHR ''-'' # str_nat (nat (- i)) else str_nat (nat i))"

text \<open>\<open>str.lower()\<close> on code points below 256.\<close>

definition lower_char :: "char \<Rightarrow> char" where
  "lower_char c =
     (let n = (of_char c :: nat)
      in if (65 \<le> n \<and> n \<le> 90) \<or> (192 \<le> n \<and> n \<le> 222 \<and> n \<noteq> 215)
         then char_of (n + 32) else c)"

definition lower :: "string \<Rightarrow> string" where
  "lower s = map lower_char s"

text \<open>
  The value stored under the key \<open>content\<close> of a line operation, and therefore an element
  of the line array: a string, or a list of strings.
\<close>

datatype pyval = Str string | StrList "string list"

section \<open>Line operations of \<open>edit_file\<close>\<close>

text \<open>
  A line operation is a dictionary. The record holds the keys \<open>edit_file\<close> reads; a key
  that is absent from the dictionary is \<open>None\<close>.
\<close>

record line_op =
  op_operation :: "string option"
  op_line :: "int option"
  op_start_line :: "int option"
  op_end_line :: "int option"
  op_content :: "pyval option"

text \<open>\<open>d.get(key, default)\<close>\<close>

definition get_or :: "'a option \<Rightarrow> 'a \<Rightarrow> 'a" where
  "get_or v d = (case v of None \<Rightarrow> d | Some x \<Rightarrow> x)"

text \<open>
  The sort key of line 296:
  \<open>-(op.get("line", 0) if "line" in op else op.get("start_line", 0))\<close>.
\<close>

definition target_line :: "line_op \<Rightarrow> int" where
  "target_line op =
     (if op_line op \<noteq> None then get_or (op_line op) 0 else get_or (op_start_line op) 0)"

definition sort_key_of :: "line_op \<Rightarrow> int" where
  "sort_key_of op = - target_line op"

text \<open>\<open>sorted(line_operations, key=...)\<close>: ascending in the key, stable.\<close>

definition sorted_ops :: "line_op list \<Rightarrow> line_op list" where
  "sorted_ops ops = sort_key sort_key_of ops"

text \<open>
  The outcome dictionaries appended to \<open>line_ops_performed\<close>, one constructor for each
  shape the code builds.
\<close>

datatype op_outcome =
    InsertDone int
  | ReplaceDone int pyval
  | ReplaceFailed int string
  | DeleteDone int int int "pyval list"
  | DeleteFailed int int string
  | UnknownFailed string string

fun outcome_success :: "op_outcome \<Rightarrow> bool" where
  "outcome_success (InsertDone _) = True"
| "outcome_success (ReplaceDone _ _) = True"
| "outcome_success (ReplaceFailed _ _) = False"
| "outcome_success (DeleteDone _ _ _ _) = True"
| "outcome_success (DeleteFailed _ _ _) = False"
| "outcome_success (UnknownFailed _ _) = False"

text \<open>\<open>list.insert(i, x)\<close>: a negative index counts from the end, and the index is clamped.\<close>

definition list_insert :: "'a list \<Rightarrow> int \<Rightarrow> 'a \<Rightarrow> 'a list" where
  "list_insert xs i x =
     (let n = int (length xs);
          j = (if i < 0 then max 0 (i + n) else min i n)
      in take (nat j) xs @ x # drop (nat j) xs)"

text \<open>\<open>for i, line in enumerate(new_content): lines.insert(idx + i, line)\<close>\<close>

fun insert_each :: "pyval list \<Rightarrow> int \<Rightarrow> string list \<Rightarrow> pyval list" where
  "insert_each lines idx [] = lines"
| "insert_each lines idx (l # ls) = insert_each (list_insert lines idx (Str l)) (idx + 1) ls"

definition do_insert :: "pyval list \<Rightarrow> line_op \<Rightarrow> pyval list \<times> op_outcome" where
  "do_insert lines op =
     (let line_num = get_or (op_line op) 0;
          new_content = get_or (op_content op) (Str []);
          idx = min (max 0 (line_num - 1)) (int (length lines));
          lines' = (case new_content of
                      StrList ls \<Rightarrow> insert_each lines idx ls
                    | Str s \<Rightarrow> list_insert lines idx (Str s))
      in (lines', InsertDone line_num))"

definition do_replace :: "pyval list \<Rightarrow> line_op \<Rightarrow> pyval list \<times> op_outcome" where
  "do_replace lines op =
     (let line_num = get_or (op_line op) 0;
          new_content = get_or (op_content op) (Str []);
          idx = line_num - 1
      in if 0 \<le> idx \<and> idx < int (length lines)
         then (lines[nat idx := new_content], ReplaceDone line_num (lines ! nat idx))
         else (lines, ReplaceFailed line_num
                 (''Line '' @ str_int line_num @ '' is out of range (1-''
                    @ str_int (int (length lines)) @ '')'')))"

definition do_delete :: "pyval list \<Rightarrow> line_op \<Rightarrow> pyval list \<times> op_outcome" where
  "do_delete lines op =
     (let start_line = get_or (op_start_line op) 0;
          end_line = get_or (op_end_line op) start_line;
          start_idx = max 0 (start_line - 1);
          end_idx = min (int (length lines)) end_line
      in if start_idx < end_idx
         then (take (nat start_idx) lines @ drop (nat end_idx) lines,
               DeleteDone start_line end_line (end_idx - start_idx)
                 (drop (nat start_idx) (take (nat end_idx) lines)))
         else (lines, DeleteFailed start_line end_line
                 (''Invalid line range: '' @ str_int start_line @ ''-'' @ str_int end_line)))"

text \<open>One iteration of the loop over \<open>sorted_ops\<close> (lines 299 to 383).\<close>

definition apply_line_op :: "pyval list \<Rightarrow> line_op \<Rightarrow> pyval list \<times> op_outcome" where
  "apply_line_op lines op =
     (let operation_type = lower (get_or (op_operation op) [])
      in if operation_type = ''insert'' then do_insert lines op
         else if operation_type = ''replace'' then do_replace lines op
         else if operation_type = ''delete'' then do_delete lines op
         else (lines, UnknownFailed operation_type
                 (''Unknown operation type: '' @ operation_type)))"

text \<open>The loop: the line array and \<open>line_ops_performed\<close> are threaded through.\<close>

fun ops_loop :: "pyval list \<Rightarrow> op_outcome list \<Rightarrow> line_op list \<Rightarrow> pyval list \<times> op_outcome list"
  where
  "ops_loop lines performed [] = (lines, performed)"
| "ops_loop lines performed (op # ops) =
     (case apply_line_op lines op of
        (lines', out) \<Rightarrow> ops_loop lines' (performed @ [out]) ops)"

text \<open>Lines 292 to 383: sort, then loop.\<close>

definition run_line_ops :: "pyval list \<Rightarrow> line_op list \<Rightarrow> pyval list \<times> op_outcome list" where
  "run_line_ops lines ops = ops_loop lines [] (sorted_ops ops)"

text \<open>
  The three kinds of line operation of the tool's description, as the dictionaries a caller
  passes: \<open>{"operation": "insert", "line": n, "content": c}\<close>,
  \<open>{"operation": "replace", "line": n, "content": c}\<close> and
  \<open>{"operation": "delete", "start_line": s, "end_line": e}\<close>.
\<close>

definition mk_insert :: "int \<Rightarrow> pyval \<Rightarrow> line_op" where
  "mk_insert n c = \<lparr>op_operation = Some ''insert'', op_line = Some n, op_start_line = None,
      op_end_line = None, op_content = Some c\<rparr>"

definition mk_replace :: "int \<Rightarrow> pyval \<Rightarrow> line_op" where
  "mk_replace n c = \<lparr>op_operation = Some ''replace'', op_line = Some n, op_start_line = None,
      op_end_line = None, op_content = Some c\<rparr>"

definition mk_delete :: "int \<Rightarrow> int \<Rightarrow> line_op" where
  "mk_delete s e = \<lparr>op_operation = Some ''delete'', op_line = None, op_start_line = Some s,
      op_end_line = Some e, op_content = None\<rparr>"


section \<open>String operations\<close>

text \<open>\<open>s.count(sub)\<close>: the number of non-overlapping occurrences, scanning from the left.\<close>

function str_count :: "string \<Rightarrow> string \<Rightarrow> nat" where
  "str_count s sub =
     (if sub = [] then length s + 1
      else if s = [] then 0
      else if take (length sub) s = sub then 1 + str_count (drop (length sub) s) sub
      else str_count (tl s) sub)"
  by pat_completeness auto
termination
  by (relation "measure (\<lambda>(s, sub). length s)") auto

text \<open>\<open>s.replace(old, new)\<close>: every non-overlapping occurrence, scanning from the left.\<close>

function str_replace :: "string \<Rightarrow> string \<Rightarrow> string \<Rightarrow> string" where
  "str_replace s old new =
     (if old = [] then new @ concat (map (\<lambda>c. c # new) s)
      else if s = [] then []
      else if take (length old) s = old then new @ str_replace (drop (length old) s) old new
      else hd s # str_replace (tl s) old new)"
  by pat_completeness auto
termination
  by (relation "measure (\<lambda>(s, old, new). length s)") auto

text \<open>The line boundaries of \<open>str.splitlines\<close> among the code points below 256.\<close>

definition is_linebreak :: "char \<Rightarrow> bool" where
  "is_linebreak c \<longleftrightarrow>
     c \<in> set [CHR 0x0A, CHR 0x0B, CHR 0x0C, CHR 0x0D, CHR 0x1C, CHR 0x1D, CHR 0x1E, CHR 0x85]"

text \<open>
  \<open>s.splitlines()\<close>: a line ends at a line boundary, \<open>\r\n\<close> counts as one boundary, and
  the boundaries are dropped. A boundary at the very end opens no further line.
\<close>

fun cons_first :: "char \<Rightarrow> string list \<Rightarrow> string list" where
  "cons_first c [] = [[c]]"
| "cons_first c (l # ls) = (c # l) # ls"

fun splitlines :: "string \<Rightarrow> string list" where
  "splitlines [] = []"
| "splitlines [c] = (if is_linebreak c then [[]] else [[c]])"
| "splitlines (c # d # ds) =
     (if c = CR \<and> d = LF then [] # splitlines ds
      else if is_linebreak c then [] # splitlines (d # ds)
      else cons_first c (splitlines (d # ds)))"

text \<open>\<open>"\n".join(lines)\<close> on a list of strings.\<close>

fun join_nl :: "string list \<Rightarrow> string" where
  "join_nl [] = []"
| "join_nl [l] = l"
| "join_nl (l # m # ls) = l @ LF # join_nl (m # ls)"

section \<open>String replacements of \<open>edit_file\<close>\<close>

text \<open>
  Lines 280 to 284, the loop over \<open>replacements.items()\<close>. The dictionary is given as the
  list of its items in insertion order; \<open>replacement_counts\<close> is a dictionary from \<open>old\<close>
  to the count.
\<close>

fun replace_loop ::
  "string \<Rightarrow> (string \<rightharpoonup> nat) \<Rightarrow> (string \<times> string) list \<Rightarrow> string \<times> (string \<rightharpoonup> nat)" where
  "replace_loop content counts [] = (content, counts)"
| "replace_loop content counts ((old, new) # rs) =
     (let count = str_count content old
      in if count > 0
         then replace_loop (str_replace content old new) (counts(old \<mapsto> count)) rs
         else replace_loop content counts rs)"

text \<open>
  The reading of the specification: plain sequential substring replacement, every pair
  applied in order with no test of the count.
\<close>

definition sequential_replace :: "string \<Rightarrow> (string \<times> string) list \<Rightarrow> string" where
  "sequential_replace content rs = foldl (\<lambda>c (old, new). str_replace c old new) content rs"

section \<open>Exceptions and the file system\<close>

text \<open>
  A path is the list of its components below the root. A node is a regular file holding
  its text, or a directory. Permissions, links and encodings are not modelled: a regular
  file can always be read and written.
\<close>

type_synonym path = "string list"

datatype node = File string | Dir

type_synonym filesystem = "path \<rightharpoonup> node"

datatype exn =
    FileNotFoundError path
  | IsADirectoryError path
  | NotADirectoryError path
  | FileExistsError path
  | FileNameTooLong path
  | TypeError string
  | ReError string
  | TimeoutExpired
  | OtherError string

text \<open>\<open>str(path)\<close> and \<open>str(e)\<close>\<close>

definition path_str :: "path \<Rightarrow> string" where
  "path_str p = (if p = [] then ''/'' else concat (map (\<lambda>c. ''/'' @ c) p))"

fun exn_str :: "exn \<Rightarrow> string" where
  "exn_str (FileNotFoundError p) =
     ''[Errno 2] No such file or directory: '' @ [CHR 0x27] @ path_str p @ [CHR 0x27]"
| "exn_str (IsADirectoryError p) =
     ''[Errno 21] Is a directory: '' @ [CHR 0x27] @ path_str p @ [CHR 0x27]"
| "exn_str (NotADirectoryError p) =
     ''[Errno 20] Not a directory: '' @ [CHR 0x27] @ path_str p @ [CHR 0x27]"
| "exn_str (FileExistsError p) =
     ''[Errno 17] File exists: '' @ [CHR 0x27] @ path_str p @ [CHR 0x27]"
| "exn_str (FileNameTooLong p) =
     ''[Errno 36] File name too long: '' @ [CHR 0x27] @ path_str p @ [CHR 0x27]"
| "exn_str (TypeError m) = m"
| "exn_str (ReError m) = m"
| "exn_str TimeoutExpired = ''Command timed out''"
| "exn_str (OtherError m) = m"

text \<open>\<open>try: body except Exception as e: handler(e)\<close>, with \<open>Inl\<close> a raised exception.\<close>

definition try_except :: "exn + 'a \<Rightarrow> (exn \<Rightarrow> exn + 'a) \<Rightarrow> exn + 'a" where
  "try_except body handler = (case body of Inl e \<Rightarrow> handler e | Inr r \<Rightarrow> Inr r)"

text \<open>
  A component of more than 255 characters is no file name: the system calls on such a path
  fail with \<open>ENAMETOOLONG\<close>, and nothing exists there.
\<close>

definition name_too_long :: "path \<Rightarrow> bool" where
  "name_too_long p = list_ex (\<lambda>c. 255 < length c) p"

definition node_at :: "filesystem \<Rightarrow> path \<Rightarrow> node option" where
  "node_at fs p = (if name_too_long p then None else if p = [] then Some Dir else fs p)"

text \<open>
  \<open>file_path.exists()\<close>: false for a missing path, and an \<open>OSError\<close> other than a missing
  path is raised, here the one of a name that is too long.
\<close>

definition path_exists :: "filesystem \<Rightarrow> path \<Rightarrow> exn + bool" where
  "path_exists fs p =
     (if name_too_long p then Inl (FileNameTooLong p) else Inr (node_at fs p \<noteq> None))"

text \<open>
  Reading in text mode translates \<open>\r\n\<close> and a lone \<open>\r\<close> to \<open>\n\<close> (universal
  newlines).
\<close>

fun universal_newlines :: "string \<Rightarrow> string" where
  "universal_newlines [] = []"
| "universal_newlines [c] = (if c = CR then [LF] else [c])"
| "universal_newlines (c # d # ds) =
     (if c = CR \<and> d = LF then LF # universal_newlines ds
      else if c = CR then LF # universal_newlines (d # ds)
      else c # universal_newlines (d # ds))"

text \<open>\<open>file_path.read_text()\<close>, and \<open>open(file_path, 'r')\<close> followed by reading.\<close>

definition read_text :: "filesystem \<Rightarrow> path \<Rightarrow> exn + string" where
  "read_text fs p =
     (if name_too_long p then Inl (FileNameTooLong p)
      else case node_at fs p of
             None \<Rightarrow> Inl (FileNotFoundError p)
           | Some Dir \<Rightarrow> Inl (IsADirectoryError p)
           | Some (File text) \<Rightarrow> Inr (universal_newlines text))"

text \<open>
  \<open>with open(file_path, mode) as f: f.write(content)\<close> for the modes \<open>"w"\<close> and \<open>"a"\<close>.
  A missing file is created when its parent is a directory.
\<close>

datatype write_mode = ModeW | ModeA

definition open_write :: "filesystem \<Rightarrow> path \<Rightarrow> write_mode \<Rightarrow> string \<Rightarrow> exn + filesystem" where
  "open_write fs p mode content =
     (if name_too_long p then Inl (FileNameTooLong p)
      else case node_at fs p of
             Some Dir \<Rightarrow> Inl (IsADirectoryError p)
           | Some (File old) \<Rightarrow>
               Inr (fs(p \<mapsto> File (case mode of ModeW \<Rightarrow> content | ModeA \<Rightarrow> old @ content)))
           | None \<Rightarrow>
               (case node_at fs (butlast p) of
                  Some Dir \<Rightarrow> Inr (fs(p \<mapsto> File content))
                | Some (File _) \<Rightarrow> Inl (NotADirectoryError p)
                | None \<Rightarrow> Inl (FileNotFoundError p)))"

text \<open>\<open>d.mkdir(parents=True, exist_ok=True)\<close>\<close>

function mkdir_parents :: "filesystem \<Rightarrow> path \<Rightarrow> exn + filesystem" where
  "mkdir_parents fs d =
     (if name_too_long d then Inl (FileNameTooLong d)
      else case node_at fs d of
             Some Dir \<Rightarrow> Inr fs
           | Some (File _) \<Rightarrow> Inl (FileExistsError d)
           | None \<Rightarrow>
               (case node_at fs (butlast d) of
                  Some (File _) \<Rightarrow> Inl (NotADirectoryError d)
                | _ \<Rightarrow>
                  (case mkdir_parents fs (butlast d) of
                     Inl e \<Rightarrow> Inl e
                   | Inr fs' \<Rightarrow> Inr (fs'(d \<mapsto> Dir)))))"
  by pat_completeness auto
termination
  by (relation "measure (\<lambda>(fs, d). length d)") (auto simp: node_at_def split: if_splits)

section \<open>\<open>show_file\<close>\<close>

record show_result =
  sr_success :: bool
  sr_error :: "string option"
  sr_content :: string
  sr_lines_shown :: int
  sr_total_lines :: int
  sr_start_line :: "int option"
  sr_end_line :: "int option"

definition show_failed :: "string \<Rightarrow> int \<Rightarrow> show_result" where
  "show_failed msg n_lines =
     \<lparr>sr_success = False, sr_error = Some msg, sr_content = [], sr_lines_shown = 0,
      sr_total_lines = n_lines, sr_start_line = None, sr_end_line = None\<rparr>"

text \<open>\<open>xs[i:j]\<close>: negative bounds count from the end, and both are clamped.\<close>

definition py_slice :: "'a list \<Rightarrow> int \<Rightarrow> int \<Rightarrow> 'a list" where
  "py_slice xs i j =
     (let n = int (length xs);
          lo = (if i < 0 then max 0 (i + n) else min i n);
          hi = (if j < 0 then max 0 (j + n) else min j n)
      in take (nat (hi - lo)) (drop (nat lo) xs))"

text \<open>Line 100, the test of \<open>exists\<close>, stands before the \<open>try\<close> of line 109.\<close>

definition show_file :: "filesystem \<Rightarrow> path \<Rightarrow> int \<Rightarrow> int option \<Rightarrow> exn + show_result" where
  "show_file fs file_path start_line num_lines =
     (case path_exists fs file_path of
        Inl e \<Rightarrow> Inl e
      | Inr False \<Rightarrow> Inr (show_failed (''File '' @ path_str file_path @ '' does not exist'') 0)
      | Inr True \<Rightarrow> try_except
        (let start_line' = max 1 start_line
         in case read_text fs file_path of
              Inl e \<Rightarrow> Inl e
            | Inr text \<Rightarrow>
                (let all_lines = splitlines text;
                     total_lines = int (length all_lines)
                 in if start_line' > total_lines
                    then Inr (show_failed
                           (''Start line '' @ str_int start_line'
                              @ '' is beyond the file length ('' @ str_int total_lines
                              @ '' lines)'') total_lines)
                    else
                      (let start_idx = start_line' - 1;
                           end_idx = (case num_lines of
                                        None \<Rightarrow> total_lines
                                      | Some n \<Rightarrow> min (start_idx + n) total_lines);
                           selected_lines = py_slice all_lines start_idx end_idx;
                           content = join_nl selected_lines
                       in Inr \<lparr>sr_success = True, sr_error = None, sr_content = content,
                               sr_lines_shown = int (length selected_lines),
                               sr_total_lines = total_lines,
                               sr_start_line = Some start_line',
                               sr_end_line = Some (start_idx + int (length selected_lines))\<rparr>)))
        (\<lambda>e. Inr (show_failed (''Error reading file: '' @ exn_str e) 0)))"

section \<open>\<open>search_in_file\<close>\<close>

record match_entry =
  me_line_number :: int
  me_content :: string

record search_result =
  se_success :: bool
  se_error :: "string option"
  se_matches :: "match_entry list"
  se_match_count :: int
  se_truncated :: "bool option"

definition search_failed :: "string \<Rightarrow> search_result" where
  "search_failed msg =
     \<lparr>se_success = False, se_error = Some msg, se_matches = [], se_match_count = 0,
      se_truncated = None\<rparr>"

text \<open>
  Iterating over a text file yields its lines, each with its \<open>\n\<close>, the last one possibly
  without.
\<close>

fun file_lines :: "string \<Rightarrow> string list" where
  "file_lines [] = []"
| "file_lines (c # cs) = (if c = LF then [LF] # file_lines cs else cons_first c (file_lines cs))"

text \<open>\<open>line.rstrip('\n')\<close>\<close>

definition rstrip_nl :: "string \<Rightarrow> string" where
  "rstrip_nl s = rev (dropWhile (\<lambda>c. c = LF) (rev s))"

text \<open>
  Lines 200 to 207: the loop over \<open>enumerate(f, 1)\<close>, leaving at the \<open>break\<close>. The compiled
  pattern is the predicate \<open>regex_search\<close> on a line.
\<close>

fun search_loop ::
  "(string \<Rightarrow> bool) \<Rightarrow> int \<Rightarrow> match_entry list \<Rightarrow> int \<Rightarrow> string list \<Rightarrow> match_entry list" where
  "search_loop regex_search max_matches matches i [] = matches"
| "search_loop regex_search max_matches matches i (line # rest) =
     (if regex_search line
      then (let matches' = matches @ [\<lparr>me_line_number = i, me_content = rstrip_nl line\<rparr>]
            in if max_matches > 0 \<and> int (length matches') \<ge> max_matches
               then matches'
               else search_loop regex_search max_matches matches' (i + 1) rest)
      else search_loop regex_search max_matches matches (i + 1) rest)"

text \<open>
  The regular-expression library is a parameter: \<open>re_compile pattern ignore_case\<close> raises,
  or returns the search predicate of the compiled pattern.
\<close>

definition search_in_file ::
  "(string \<Rightarrow> bool \<Rightarrow> exn + (string \<Rightarrow> bool)) \<Rightarrow> filesystem \<Rightarrow> path \<Rightarrow> string \<Rightarrow> bool \<Rightarrow> int
     \<Rightarrow> exn + search_result" where
  "search_in_file re_compile fs file_path pattern case_sensitive max_matches =
     (case path_exists fs file_path of
        Inl e \<Rightarrow> Inl e
      | Inr False \<Rightarrow> Inr (search_failed (''File '' @ path_str file_path @ '' does not exist''))
      | Inr True \<Rightarrow> try_except
        (case re_compile pattern (\<not> case_sensitive) of
           Inl e \<Rightarrow> Inl e
         | Inr regex_search \<Rightarrow>
             (case read_text fs file_path of
                Inl e \<Rightarrow> Inl e
              | Inr text \<Rightarrow>
                  (let matches = search_loop regex_search max_matches [] 1 (file_lines text)
                   in Inr \<lparr>se_success = True, se_error = None, se_matches = matches,
                           se_match_count = int (length matches),
                           se_truncated =
                             Some (max_matches > 0 \<and> int (length matches) \<ge> max_matches)\<rparr>)))
        (\<lambda>e. case e of
                ReError m \<Rightarrow> Inr (search_failed (''Invalid regular expression: '' @ exn_str e))
              | _ \<Rightarrow> Inr (search_failed (''Error searching file: '' @ exn_str e))))"

section \<open>\<open>edit_file\<close>\<close>

record edit_result =
  er_success :: bool
  er_error :: "string option"
  er_original_size :: "int option"
  er_new_size :: "int option"
  er_changed :: "bool option"
  er_replacements_made :: "string \<rightharpoonup> nat"
  er_line_operations_performed :: "op_outcome list"

definition edit_failed :: "string \<Rightarrow> edit_result" where
  "edit_failed msg =
     \<lparr>er_success = False, er_error = Some msg, er_original_size = None, er_new_size = None,
      er_changed = None, er_replacements_made = Map.empty,
      er_line_operations_performed = []\<rparr>"

text \<open>
  \<open>"\n".join(lines)\<close> on the line array: an element that is not a string raises
  \<open>TypeError\<close>, naming the index of the first such element.
\<close>

fun strs_of :: "pyval list \<Rightarrow> nat \<Rightarrow> nat + string list" where
  "strs_of [] i = Inr []"
| "strs_of (Str s # vs) i = (case strs_of vs (i + 1) of Inl k \<Rightarrow> Inl k | Inr ss \<Rightarrow> Inr (s # ss))"
| "strs_of (StrList _ # vs) i = Inl i"

definition join_lines :: "pyval list \<Rightarrow> exn + string" where
  "join_lines lines =
     (case strs_of lines 0 of
        Inl k \<Rightarrow> Inl (TypeError (''sequence item '' @ str_int (int k)
                        @ '': expected str instance, list found''))
      | Inr ss \<Rightarrow> Inr (join_nl ss))"

text \<open>Lines 269 to 407: the body of the \<open>try\<close>, on a file system and an existing path.\<close>

definition edit_body ::
  "filesystem \<Rightarrow> path \<Rightarrow> (string \<times> string) list option \<Rightarrow> line_op list option
     \<Rightarrow> (exn + edit_result) \<times> filesystem" where
  "edit_body fs file_path replacements line_operations =
     (case read_text fs file_path of
        Inl e \<Rightarrow> (Inr (edit_failed (''Error editing file: '' @ exn_str e)), fs)
      | Inr original_content \<Rightarrow>
          (let (content, replacement_counts) =
                 (if replacements \<noteq> None \<and> replacements \<noteq> Some []
                  then replace_loop original_content Map.empty (the replacements)
                  else (original_content, Map.empty));
               (joined, line_ops_performed) =
                 (if line_operations \<noteq> None \<and> line_operations \<noteq> Some []
                  then (case run_line_ops (map Str (splitlines content)) (the line_operations) of
                          (lines, performed) \<Rightarrow> (join_lines lines, performed))
                  else (Inr content, []))
           in case joined of
                Inl e \<Rightarrow> (Inr (edit_failed (''Error editing file: '' @ exn_str e)), fs)
              | Inr content' \<Rightarrow>
                  (case open_write fs file_path ModeW content' of
                     Inl e \<Rightarrow> (Inr (edit_failed (''Error editing file: '' @ exn_str e)), fs)
                   | Inr fs' \<Rightarrow>
                       (Inr \<lparr>er_success = True, er_error = None,
                              er_original_size = Some (int (length original_content)),
                              er_new_size = Some (int (length content')),
                              er_changed = Some (original_content \<noteq> content'),
                              er_replacements_made = replacement_counts,
                              er_line_operations_performed = line_ops_performed\<rparr>, fs'))))"

text \<open>
  Lines 257 to 267 run before the \<open>try\<close>: an exception of \<open>exists\<close>, \<open>mkdir\<close> or
  \<open>write_text\<close> there leaves the function.
\<close>

definition edit_file ::
  "filesystem \<Rightarrow> path \<Rightarrow> (string \<times> string) list option \<Rightarrow> line_op list option \<Rightarrow> bool
     \<Rightarrow> (exn + edit_result) \<times> filesystem" where
  "edit_file fs file_path replacements line_operations create_if_missing =
     (case path_exists fs file_path of
        Inl e \<Rightarrow> (Inl e, fs)
      | Inr False \<Rightarrow>
          (if create_if_missing
           then (case mkdir_parents fs (butlast file_path) of
                   Inl e \<Rightarrow> (Inl e, fs)
                 | Inr fs1 \<Rightarrow>
                     (case open_write fs1 file_path ModeW [] of
                        Inl e \<Rightarrow> (Inl e, fs1)
                      | Inr fs2 \<Rightarrow> edit_body fs2 file_path replacements line_operations))
           else (Inr (edit_failed (''File '' @ path_str file_path @ '' does not exist'')), fs))
      | Inr True \<Rightarrow> edit_body fs file_path replacements line_operations)"

section \<open>\<open>write_file\<close>\<close>

record write_result =
  wr_success :: bool
  wr_error :: "string option"

definition write_file ::
  "filesystem \<Rightarrow> path \<Rightarrow> string \<Rightarrow> write_mode \<Rightarrow> (exn + write_result) \<times> filesystem" where
  "write_file fs file_path content mode =
     (case open_write fs file_path mode content of
        Inr fs' \<Rightarrow> (Inr \<lparr>wr_success = True, wr_error = None\<rparr>, fs')
      | Inl e \<Rightarrow> (Inr \<lparr>wr_success = False, wr_error = Some (exn_str e)\<rparr>, fs))"

section \<open>\<open>execute_shell_command\<close> and \<open>fetch_page\<close>\<close>






section \<open>Notions of the statements, and examples\<close>

text \<open>
  The count the specification asks for: the occurrences of the \<open>i\<close>-th \<open>old\<close> in the content
  produced by the pairs before it.
\<close>

definition count_before :: "string \<Rightarrow> (string \<times> string) list \<Rightarrow> nat \<Rightarrow> nat" where
  "count_before content rs i = str_count (sequential_replace content (take i rs)) (fst (rs ! i))"

text \<open>A small file system for the examples.\<close>

definition example_fs :: filesystem where
  "example_fs = [[''tmp''] \<mapsto> Dir, [''tmp'', ''f.txt''] \<mapsto> File ''aXbXa'']"

text \<open>
  What joining the split lines does to a character that is kept: every line boundary
  becomes \<open>\n\<close>.
\<close>

definition nl_norm :: "char \<Rightarrow> char" where
  "nl_norm c = (if is_linebreak c then LF else c)"

text \<open>
  All the matches of a file, with no cap: the matching lines in order, numbered from \<open>i\<close>.
\<close>

fun matching_entries :: "(string \<Rightarrow> bool) \<Rightarrow> int \<Rightarrow> string list \<Rightarrow> match_entry list" where
  "matching_entries regex_search i [] = []"
| "matching_entries regex_search i (line # rest) =
     (if regex_search line
      then \<lparr>me_line_number = i, me_content = rstrip_nl line\<rparr>
             # matching_entries regex_search (i + 1) rest
      else matching_entries regex_search (i + 1) rest)"

text \<open>
  A regular-expression library for the examples: it knows patterns without special
  characters only, which match a line that contains them.
\<close>

definition literal_re :: "string \<Rightarrow> bool \<Rightarrow> exn + (string \<Rightarrow> bool)" where
  "literal_re pattern ignore_case = Inr (\<lambda>line. str_count line pattern > 0)"

text \<open>
  An operation dictionary with an operation kind that \<open>edit_file\<close> does not know, or with
  none.
\<close>

definition mk_other :: "string option \<Rightarrow> line_op" where
  "mk_other kind = \<lparr>op_operation = kind, op_line = None, op_start_line = None,
      op_end_line = None, op_content = None\<rparr>"



text \<open>
  The line array before the first line operation: the text read from the file, after the
  string replacements, split into lines.
\<close>

definition lines_before_ops :: "string \<Rightarrow> (string \<times> string) list option \<Rightarrow> pyval list" where
  "lines_before_ops text replacements =
     map Str (splitlines (sequential_replace (universal_newlines text)
                (case replacements of None \<Rightarrow> [] | Some rs \<Rightarrow> rs)))"





section \<open>Facts about the file system\<close>

lemma node_at_valid_name: "node_at fs p = Some n \<Longrightarrow> \<not> name_too_long p"
  by (auto simp: node_at_def split: if_splits)

lemma existing_path: "node_at fs p = Some n \<Longrightarrow> path_exists fs p = Inr True"
  by (auto simp: path_exists_def node_at_def split: if_splits)

lemma read_text_file:
  "node_at fs p = Some (File text) \<Longrightarrow> read_text fs p = Inr (universal_newlines text)"
  by (frule node_at_valid_name) (simp add: read_text_def)

lemma open_write_file:
  "node_at fs p = Some (File old) \<Longrightarrow> open_write fs p ModeW c = Inr (fs(p \<mapsto> File c))"
  by (frule node_at_valid_name) (simp add: open_write_def)

lemma short_names [simp]:
  "\<not> name_too_long [''tmp'']" "\<not> name_too_long [''tmp'', ''f.txt'']"
  "\<not> name_too_long [''tmp'', ''new.txt'']" "\<not> name_too_long [''tmp'', ''empty'']"
  "\<not> name_too_long [''tmp'', ''five'']" "\<not> name_too_long [''tmp'', ''abc'']"
  "\<not> name_too_long [''tmp'', ''ab'']"
  by (simp_all add: name_too_long_def)

section \<open>Properties of the line operations\<close>

subsection \<open>Insert\<close>

lemma insert_each_eq:
  "0 \<le> idx \<Longrightarrow> idx \<le> int (length lines) \<Longrightarrow>
   insert_each lines idx ls = take (nat idx) lines @ map Str ls @ drop (nat idx) lines"
proof (induction ls arbitrary: lines idx)
  case Nil
  then show ?case by simp
next
  case (Cons l ls)
  let ?k = "nat idx"
  have k: "?k \<le> length lines" using Cons.prems by simp
  have step: "list_insert lines idx (Str l) = take ?k lines @ Str l # drop ?k lines"
    using Cons.prems by (simp add: list_insert_def min_def)
  have len: "idx + 1 \<le> int (length (list_insert lines idx (Str l)))"
    using Cons.prems k by (simp add: step)
  have n: "nat (idx + 1) = Suc ?k" using Cons.prems by simp
  show ?case
    using Cons.IH [of "idx + 1" "list_insert lines idx (Str l)"] Cons.prems len k
    by (simp add: step n)
qed

lemma lower_insert [simp]: "lower ''insert'' = ''insert''"
  by (simp add: lower_def lower_char_def)
lemma lower_replace [simp]: "lower ''replace'' = ''replace''"
  by (simp add: lower_def lower_char_def)
lemma lower_delete [simp]: "lower ''delete'' = ''delete''"
  by (simp add: lower_def lower_char_def)

lemma do_insert_eq:
  "do_insert lines op =
     (take (nat (min (max 0 (get_or (op_line op) 0 - 1)) (int (length lines)))) lines
        @ (case get_or (op_content op) (Str []) of StrList ls \<Rightarrow> map Str ls | Str s \<Rightarrow> [Str s])
        @ drop (nat (min (max 0 (get_or (op_line op) 0 - 1)) (int (length lines)))) lines,
      InsertDone (get_or (op_line op) 0))"
proof -
  let ?idx = "min (max 0 (get_or (op_line op) 0 - 1)) (int (length lines))"
  have a: "0 \<le> ?idx" and b: "?idx \<le> int (length lines)" by simp_all
  have c: "list_insert lines ?idx x = take (nat ?idx) lines @ x # drop (nat ?idx) lines" for x
    using a b unfolding list_insert_def Let_def by (simp only: min_absorb1 if_False not_less[symmetric] simp_thms)
  show ?thesis
    unfolding do_insert_def Let_def
    by (cases "get_or (op_content op) (Str [])") (simp_all only: pyval.case c insert_each_eq [OF a b] append.simps)
qed

text \<open>
  Claim C4. An insert operation puts its content at the 0-based index \<open>line - 1\<close>, floored
  at 0 and capped at the current length of the line array, so that a line past the end
  appends. A list of strings is inserted element by element in its own order, a single
  string alone, and the recorded outcome is always a success.
\<close>

theorem insert_clamps_and_succeeds:
  assumes "lower (get_or (op_operation op) []) = ''insert''"
  shows "apply_line_op lines op =
     (take (nat (min (max 0 (get_or (op_line op) 0 - 1)) (int (length lines)))) lines
        @ (case get_or (op_content op) (Str []) of StrList ls \<Rightarrow> map Str ls | Str s \<Rightarrow> [Str s])
        @ drop (nat (min (max 0 (get_or (op_line op) 0 - 1)) (int (length lines)))) lines,
      InsertDone (get_or (op_line op) 0))
    \<and> nat (min (max 0 (get_or (op_line op) 0 - 1)) (int (length lines))) \<le> length lines
    \<and> outcome_success (snd (apply_line_op lines op))"
  using assms by (simp add: apply_line_op_def do_insert_eq)

theorem insert_clamps_and_succeeds_witness:
  "apply_line_op [Str ''a'', Str ''b''] (mk_insert 9 (StrList [''x'', ''y'', ''z'']))
     = ([Str ''a'', Str ''b'', Str ''x'', Str ''y'', Str ''z''], InsertDone 9)
   \<and> apply_line_op [Str ''a'', Str ''b''] (mk_insert (- 4) (Str ''x''))
     = ([Str ''x'', Str ''a'', Str ''b''], InsertDone (- 4))
   \<and> apply_line_op [Str ''a'', Str ''b''] (mk_insert 2 (StrList [''x'', ''y'']))
     = ([Str ''a'', Str ''x'', Str ''y'', Str ''b''], InsertDone 2)"
  using insert_clamps_and_succeeds [of "mk_insert 9 (StrList [''x'', ''y'', ''z''])" "[Str ''a'', Str ''b'']"]
        insert_clamps_and_succeeds [of "mk_insert (- 4) (Str ''x'')" "[Str ''a'', Str ''b'']"]
        insert_clamps_and_succeeds [of "mk_insert 2 (StrList [''x'', ''y''])" "[Str ''a'', Str ''b'']"]
  by (simp add: mk_insert_def get_or_def)

subsection \<open>Failing replace and delete\<close>

lemma do_replace_out_of_range:
  "\<not> (1 \<le> get_or (op_line op) 0 \<and> get_or (op_line op) 0 \<le> int (length lines)) \<Longrightarrow>
   do_replace lines op =
     (lines, ReplaceFailed (get_or (op_line op) 0)
        (''Line '' @ str_int (get_or (op_line op) 0) @ '' is out of range (1-''
           @ str_int (int (length lines)) @ '')''))"
  unfolding do_replace_def Let_def by auto

lemma do_delete_invalid_range:
  "\<not> max 0 (get_or (op_start_line op) 0 - 1)
       < min (int (length lines)) (get_or (op_end_line op) (get_or (op_start_line op) 0)) \<Longrightarrow>
   do_delete lines op =
     (lines, DeleteFailed (get_or (op_start_line op) 0)
        (get_or (op_end_line op) (get_or (op_start_line op) 0))
        (''Invalid line range: '' @ str_int (get_or (op_start_line op) 0) @ ''-''
           @ str_int (get_or (op_end_line op) (get_or (op_start_line op) 0))))"
  unfolding do_delete_def Let_def by (simp only: if_False)

lemma str_int_10: "str_int 10 = ''10''"
  by code_simp
lemma str_int_3: "str_int 3 = ''3''"
  by code_simp
lemma str_int_5: "str_int 5 = ''5''"
  by code_simp

text \<open>
  Claim C3. A replace whose line is outside \<open>1..length lines\<close> and a delete whose clamped
  range has \<open>start_idx \<ge> end_idx\<close> each record a failure and return the line array as
  it was. The message of the failed replace names the range \<open>1-length lines\<close>.
\<close>

theorem failed_replace_delete_keep_lines:
  "(lower (get_or (op_operation op) []) = ''replace''
      \<and> \<not> (1 \<le> get_or (op_line op) 0 \<and> get_or (op_line op) 0 \<le> int (length lines))
     \<longrightarrow> apply_line_op lines op =
           (lines, ReplaceFailed (get_or (op_line op) 0)
              (''Line '' @ str_int (get_or (op_line op) 0) @ '' is out of range (1-''
                 @ str_int (int (length lines)) @ '')''))
         \<and> \<not> outcome_success (snd (apply_line_op lines op)))
   \<and> (lower (get_or (op_operation op) []) = ''delete''
      \<and> max 0 (get_or (op_start_line op) 0 - 1)
           \<ge> min (int (length lines)) (get_or (op_end_line op) (get_or (op_start_line op) 0))
     \<longrightarrow> apply_line_op lines op =
           (lines, DeleteFailed (get_or (op_start_line op) 0)
              (get_or (op_end_line op) (get_or (op_start_line op) 0))
              (''Invalid line range: '' @ str_int (get_or (op_start_line op) 0) @ ''-''
                 @ str_int (get_or (op_end_line op) (get_or (op_start_line op) 0))))
         \<and> \<not> outcome_success (snd (apply_line_op lines op)))"
proof (intro conjI impI)
  assume h: "lower (get_or (op_operation op) []) = ''replace''
      \<and> \<not> (1 \<le> get_or (op_line op) 0 \<and> get_or (op_line op) 0 \<le> int (length lines))"
  then have r: "apply_line_op lines op = do_replace lines op"
    by (simp add: apply_line_op_def)
  from h have "\<not> (1 \<le> get_or (op_line op) 0 \<and> get_or (op_line op) 0 \<le> int (length lines))"
    by blast
  note f = do_replace_out_of_range [OF this]
  show "apply_line_op lines op =
           (lines, ReplaceFailed (get_or (op_line op) 0)
              (''Line '' @ str_int (get_or (op_line op) 0) @ '' is out of range (1-''
                 @ str_int (int (length lines)) @ '')''))"
    by (simp only: r f)
  show "\<not> outcome_success (snd (apply_line_op lines op))"
    by (simp only: r f snd_conv outcome_success.simps not_False_eq_True)
next
  assume h: "lower (get_or (op_operation op) []) = ''delete''
      \<and> max 0 (get_or (op_start_line op) 0 - 1)
           \<ge> min (int (length lines)) (get_or (op_end_line op) (get_or (op_start_line op) 0))"
  then have d: "apply_line_op lines op = do_delete lines op"
    by (simp add: apply_line_op_def)
  from h have "\<not> max 0 (get_or (op_start_line op) 0 - 1)
       < min (int (length lines)) (get_or (op_end_line op) (get_or (op_start_line op) 0))"
    by (simp only: not_less)
  note f = do_delete_invalid_range [OF this]
  show "apply_line_op lines op =
           (lines, DeleteFailed (get_or (op_start_line op) 0)
              (get_or (op_end_line op) (get_or (op_start_line op) 0))
              (''Invalid line range: '' @ str_int (get_or (op_start_line op) 0) @ ''-''
                 @ str_int (get_or (op_end_line op) (get_or (op_start_line op) 0))))"
    by (simp only: d f)
  show "\<not> outcome_success (snd (apply_line_op lines op))"
    by (simp only: d f snd_conv outcome_success.simps not_False_eq_True)
qed

theorem failed_replace_delete_keep_lines_witness:
  "apply_line_op [Str ''a'', Str ''b'', Str ''c''] (mk_replace 10 (Str ''X''))
     = ([Str ''a'', Str ''b'', Str ''c''], ReplaceFailed 10 ''Line 10 is out of range (1-3)'')
   \<and> apply_line_op [Str ''a'', Str ''b'', Str ''c''] (mk_delete 5 3)
     = ([Str ''a'', Str ''b'', Str ''c''], DeleteFailed 5 3 ''Invalid line range: 5-3'')"
  using failed_replace_delete_keep_lines
          [of "mk_replace 10 (Str ''X'')" "[Str ''a'', Str ''b'', Str ''c'']"]
        failed_replace_delete_keep_lines
          [of "mk_delete 5 3" "[Str ''a'', Str ''b'', Str ''c'']"]
  by (simp add: mk_replace_def mk_delete_def get_or_def str_int_10 str_int_3 str_int_5)

subsection \<open>Order of application\<close>

lemma ops_loop_fst:
  "fst (ops_loop lines performed ops) = foldl (\<lambda>ls op. fst (apply_line_op ls op)) lines ops"
  by (induction ops arbitrary: lines performed) (auto split: prod.splits)

lemma run_single: "fst (run_line_ops ls [op]) = fst (apply_line_op ls op)"
  by (simp add: run_line_ops_def sorted_ops_def split: prod.splits)

lemma sorted_ops_descending:
  "sorted_wrt (\<lambda>a b. target_line a \<ge> target_line b) (sorted_ops ops)"
proof -
  have "sorted (map sort_key_of (sorted_ops ops))"
    by (simp add: sorted_ops_def)
  then show ?thesis
    by (simp add: sorted_map sort_key_of_def)
qed

text \<open>
  Claim C1. The batch is sorted by descending target line, stably: the target is \<open>line\<close>
  for an insert or a replace and \<open>start_line\<close> for a delete. The line array that the batch
  produces is the one obtained by running the sorted operations one at a time, each as a
  batch of its own. On \<open>["a", "b", "c"]\<close> the batch of an insert of \<open>X\<close> at line 2 and an
  insert of \<open>Y\<close> at line 1 gives \<open>["Y", "a", "X", "b", "c"]\<close>.
\<close>

theorem batch_in_descending_order:
  "fst (run_line_ops lines ops)
     = foldl (\<lambda>ls op. fst (run_line_ops ls [op])) lines (sorted_ops ops)
   \<and> mset (sorted_ops ops) = mset ops
   \<and> sorted_wrt (\<lambda>a b. target_line a \<ge> target_line b) (sorted_ops ops)
   \<and> filter (\<lambda>op. target_line op = k) (sorted_ops ops) = filter (\<lambda>op. target_line op = k) ops
   \<and> target_line (mk_insert n c) = n
   \<and> target_line (mk_replace n c) = n
   \<and> target_line (mk_delete s e) = s
   \<and> fst (run_line_ops [Str ''a'', Str ''b'', Str ''c'']
            [mk_insert 2 (Str ''X''), mk_insert 1 (Str ''Y'')])
       = [Str ''Y'', Str ''a'', Str ''X'', Str ''b'', Str ''c'']"
proof -
  have a: "fst (run_line_ops lines ops)
     = foldl (\<lambda>ls op. fst (run_line_ops ls [op])) lines (sorted_ops ops)"
    by (simp add: run_single) (simp add: run_line_ops_def ops_loop_fst)
  have b: "mset (sorted_ops ops) = mset ops"
    by (simp add: sorted_ops_def)
  have st: "filter (\<lambda>op. target_line op = k) (sorted_ops ops) = filter (\<lambda>op. target_line op = k) ops"
    using sort_key_stable [of sort_key_of "- k" ops]
    by (simp add: sorted_ops_def sort_key_of_def)
  have t: "target_line (mk_insert n c) = n" "target_line (mk_replace n c) = n"
      "target_line (mk_delete s e) = s"
    by (simp_all add: target_line_def mk_insert_def mk_replace_def mk_delete_def get_or_def)
  have ex: "fst (run_line_ops [Str ''a'', Str ''b'', Str ''c'']
            [mk_insert 2 (Str ''X''), mk_insert 1 (Str ''Y'')])
       = [Str ''Y'', Str ''a'', Str ''X'', Str ''b'', Str ''c'']"
    by (simp add: run_line_ops_def sorted_ops_def sort_key_of_def target_line_def
        apply_line_op_def do_insert_eq mk_insert_def get_or_def)
  show ?thesis using a b sorted_ops_descending st t ex by blast
qed

section \<open>Properties of the string replacements\<close>

declare str_count.simps [simp del]
declare str_replace.simps [simp del]

lemma str_count_empty: "str_count s [] = length s + 1"
  by (subst str_count.simps) simp

lemma str_count_nil: "old \<noteq> [] \<Longrightarrow> str_count [] old = 0"
  by (subst str_count.simps) simp

lemma str_count_match:
  "old \<noteq> [] \<Longrightarrow> s \<noteq> [] \<Longrightarrow> take (length old) s = old \<Longrightarrow>
   str_count s old = 1 + str_count (drop (length old) s) old"
  by (subst str_count.simps) simp

lemma str_count_skip:
  "old \<noteq> [] \<Longrightarrow> s \<noteq> [] \<Longrightarrow> take (length old) s \<noteq> old \<Longrightarrow>
   str_count s old = str_count (tl s) old"
  by (subst str_count.simps) simp

lemma str_replace_empty: "str_replace s [] new = new @ concat (map (\<lambda>c. c # new) s)"
  by (subst str_replace.simps) simp

lemma str_replace_nil: "old \<noteq> [] \<Longrightarrow> str_replace [] old new = []"
  by (subst str_replace.simps) simp

lemma str_replace_match:
  "old \<noteq> [] \<Longrightarrow> s \<noteq> [] \<Longrightarrow> take (length old) s = old \<Longrightarrow>
   str_replace s old new = new @ str_replace (drop (length old) s) old new"
  by (subst str_replace.simps) simp

lemma str_replace_skip:
  "old \<noteq> [] \<Longrightarrow> s \<noteq> [] \<Longrightarrow> take (length old) s \<noteq> old \<Longrightarrow>
   str_replace s old new = hd s # str_replace (tl s) old new"
  by (subst str_replace.simps) simp

lemma str_count_zero_replace:
  "str_count s old = 0 \<Longrightarrow> str_replace s old new = s"
proof (induction s old rule: str_count.induct)
  case (1 s sub)
  show ?case
  proof (cases "sub = []")
    case True
    with "1.prems" show ?thesis by (simp add: str_count_empty)
  next
    case ne: False
    show ?thesis
    proof (cases "s = []")
      case True
      with ne show ?thesis by (simp add: str_replace_nil)
    next
      case s: False
      show ?thesis
      proof (cases "take (length sub) s = sub")
        case True
        with ne s "1.prems" show ?thesis by (simp add: str_count_match)
      next
        case False
        with ne s "1.prems" have "str_count (tl s) sub = 0"
          by (simp add: str_count_skip)
        with "1.IH"(2) ne s False have "str_replace (tl s) sub new = tl s" by simp
        with ne s False show ?thesis by (simp add: str_replace_skip)
      qed
    qed
  qed
qed

lemma length_concat_sep: "length (concat (map (\<lambda>c. c # new) s)) = length s * (1 + length new)"
  by (induction s) auto

lemma str_replace_length:
  "int (length (str_replace s old new))
     = int (length s) + int (str_count s old) * (int (length new) - int (length old))"
proof (induction s old rule: str_count.induct)
  case (1 s sub)
  show ?case
  proof (cases "sub = []")
    case True
    then show ?thesis
      by (simp add: str_count_empty str_replace_empty length_concat_sep algebra_simps)
  next
    case ne: False
    show ?thesis
    proof (cases "s = []")
      case True
      with ne show ?thesis
        by (simp add: str_count_nil str_replace_nil)
    next
      case s: False
      show ?thesis
      proof (cases "take (length sub) s = sub")
        case True
        then have "length (take (length sub) s) = length sub" by simp
        then have le: "length sub \<le> length s" by simp
        from "1.IH"(1) [OF ne s True] le show ?thesis
          by (simp add: str_count_match [OF ne s True] str_replace_match [OF ne s True]
              algebra_simps of_nat_diff)
      next
        case False
        from s have len: "int (length (tl s)) = int (length s) - 1" by (cases s) simp_all
        show ?thesis
          unfolding str_count_skip [OF ne s False] str_replace_skip [OF ne s False]
          using "1.IH"(2) [OF ne s False] len by simp
      qed
    qed
  qed
qed

lemma replace_loop_content:
  "fst (replace_loop content counts rs) = sequential_replace content rs"
proof (induction rs arbitrary: content counts)
  case Nil
  show ?case by (simp add: sequential_replace_def)
next
  case (Cons r rs)
  obtain old new where r: "r = (old, new)" by (cases r)
  show ?case
  proof (cases "str_count content old > 0")
    case True
    with Cons.IH [of "str_replace content old new"] show ?thesis
      by (simp add: r sequential_replace_def)
  next
    case False
    then have "str_replace content old new = content"
      by (simp add: str_count_zero_replace)
    with False Cons.IH [of content counts] show ?thesis
      by (simp add: r sequential_replace_def)
  qed
qed

lemma replace_loop_other_key:
  "k \<notin> fst ` set rs \<Longrightarrow> snd (replace_loop content counts rs) k = counts k"
proof (induction rs arbitrary: content counts)
  case Nil
  show ?case by simp
next
  case (Cons r rs)
  obtain old new where r: "r = (old, new)" by (cases r)
  from Cons.prems have k: "k \<noteq> old" "k \<notin> fst ` set rs" by (auto simp: r)
  show ?case
    using Cons.IH [OF k(2)] k(1) by (simp add: r Let_def)
qed

lemma replace_loop_counts:
  "distinct (map fst rs) \<Longrightarrow> i < length rs \<Longrightarrow>
   snd (replace_loop content counts rs) (fst (rs ! i))
     = (if count_before content rs i > 0 then Some (count_before content rs i)
        else counts (fst (rs ! i)))"
proof (induction rs arbitrary: content counts i)
  case Nil
  then show ?case by simp
next
  case (Cons r rs)
  obtain old new where r: "r = (old, new)" by (cases r)
  from Cons.prems(1) have d: "old \<notin> fst ` set rs" "distinct (map fst rs)" by (auto simp: r)
  have step: "(if str_count content old > 0 then str_replace content old new else content)
                = str_replace content old new"
    by (simp add: str_count_zero_replace)
  show ?case
  proof (cases i)
    case 0
    show ?thesis
      using replace_loop_other_key [OF d(1)]
      by (simp add: 0 r Let_def count_before_def sequential_replace_def)
  next
    case (Suc j)
    with Cons.prems(2) have j: "j < length rs" by simp
    then have ne: "fst (rs ! j) \<noteq> old" using d(1) by (metis image_eqI nth_mem)
    have cb: "count_before content ((old, new) # rs) (Suc j)
                = count_before (str_replace content old new) rs j"
      by (simp add: count_before_def sequential_replace_def)
    show ?thesis
    proof (cases "str_count content old > 0")
      case True
      define counts' where "counts' = counts(old \<mapsto> str_count content old)"
      have other: "counts' (fst (rs ! j)) = counts (fst (rs ! j))"
        using ne by (simp add: counts'_def)
      have loop: "replace_loop content counts ((old, new) # rs)
                    = replace_loop (str_replace content old new) counts' rs"
        using True by (simp add: counts'_def)
      show ?thesis
        unfolding Suc r nth_Cons_Suc cb loop
        using Cons.IH [OF d(2) j, of "str_replace content old new" counts']
        by (simp only: other)
    next
      case False
      then have same: "str_replace content old new = content"
        by (simp add: str_count_zero_replace)
      have loop: "replace_loop content counts ((old, new) # rs)
                    = replace_loop content counts rs"
        using False by simp
      show ?thesis
        unfolding Suc r nth_Cons_Suc cb loop same
        by (rule Cons.IH [OF d(2) j])
    qed
  qed
qed


lemma edit_body_replacements_only:
  assumes isfile: "node_at fs p = Some (File text)"
    and noops: "line_operations = None \<or> line_operations = Some []"
  shows "edit_body fs p (Some rs) line_operations =
     (Inr \<lparr>er_success = True, er_error = None,
            er_original_size = Some (int (length (universal_newlines text))),
            er_new_size = Some (int (length (sequential_replace (universal_newlines text) rs))),
            er_changed = Some (universal_newlines text
                                \<noteq> sequential_replace (universal_newlines text) rs),
            er_replacements_made = snd (replace_loop (universal_newlines text) Map.empty rs),
            er_line_operations_performed = []\<rparr>,
      fs(p \<mapsto> File (sequential_replace (universal_newlines text) rs)))"
proof -
  have rd: "read_text fs p = Inr (universal_newlines text)"
    by (rule read_text_file [OF isfile])
  have wr: "open_write fs p ModeW c = Inr (fs(p \<mapsto> File c))" for c
    by (rule open_write_file [OF isfile])
  show ?thesis
  proof (cases "rs = []")
    case True
    with noops show ?thesis
      by (auto simp add: edit_body_def rd wr sequential_replace_def)
  next
    case False
    with noops show ?thesis
      unfolding edit_body_def rd
      by (auto simp add: wr split_beta replace_loop_content)
  qed
qed

text \<open>
  Claim C2. With replacements and no line operations, \<open>edit_file\<close> writes the result of
  plain sequential replacement: every pair in the order given, each on the content left
  by the pairs before it. \<open>replacements_made\<close> maps an \<open>old\<close> that occurs to the number of
  its non-overlapping occurrences counted before its replacement, and has no entry for an
  \<open>old\<close> that does not occur. The keys of a dictionary are distinct.
\<close>

theorem replacements_only_sequential:
  assumes isfile: "node_at fs p = Some (File text)"
    and keys: "distinct (map fst rs)"
    and noops: "line_operations = None \<or> line_operations = Some []"
  shows "\<exists>r. edit_file fs p (Some rs) line_operations create
            = (Inr r, fs(p \<mapsto> File (sequential_replace (universal_newlines text) rs)))
          \<and> er_success r
          \<and> er_line_operations_performed r = []
          \<and> (\<forall>i<length rs. er_replacements_made r (fst (rs ! i)) =
                 (if count_before (universal_newlines text) rs i > 0
                  then Some (count_before (universal_newlines text) rs i) else None))
          \<and> (\<forall>k. k \<notin> fst ` set rs \<longrightarrow> er_replacements_made r k = None)"
proof -
  have ex: "path_exists fs p = Inr True" by (rule existing_path [OF isfile])
  have e: "edit_file fs p (Some rs) line_operations create = edit_body fs p (Some rs) line_operations"
    by (simp add: edit_file_def ex)
  show ?thesis
    unfolding e edit_body_replacements_only [OF isfile noops]
    using replace_loop_counts [OF keys, of _ "universal_newlines text" Map.empty]
      replace_loop_other_key [of _ rs "universal_newlines text" Map.empty]
    by simp
qed

theorem replacements_only_sequential_witness:
  "\<exists>r. edit_file example_fs [''tmp'', ''f.txt''] (Some [(''a'', ''X''), (''X'', ''yy''), (''q'', ''z'')]) None False
        = (Inr r, example_fs([''tmp'', ''f.txt''] \<mapsto> File ''yyyybyyyy''))
      \<and> er_replacements_made r ''a'' = Some 2
      \<and> er_replacements_made r ''X'' = Some 4
      \<and> er_replacements_made r ''q'' = None"
proof -
  have f: "node_at example_fs [''tmp'', ''f.txt''] = Some (File ''aXbXa'')"
    by (simp add: node_at_def example_fs_def)
  have d: "distinct (map fst [(''a'', ''X''), (''X'', ''yy''), (''q'', ''z'')])" by simp
  have u: "universal_newlines ''aXbXa'' = ''aXbXa''" by (simp add: CR_def)
  have s: "sequential_replace ''aXbXa'' [(''a'', ''X''), (''X'', ''yy''), (''q'', ''z'')] = ''yyyybyyyy''"
    by code_simp
  have c: "count_before ''aXbXa'' [(''a'', ''X''), (''X'', ''yy''), (''q'', ''z'')] 0 = 2"
     "count_before ''aXbXa'' [(''a'', ''X''), (''X'', ''yy''), (''q'', ''z'')] (Suc 0) = 4"
     "count_before ''aXbXa'' [(''a'', ''X''), (''X'', ''yy''), (''q'', ''z'')] 2 = 0"
    by code_simp+
  from replacements_only_sequential [OF f d, of None False]
  obtain r where r: "edit_file example_fs [''tmp'', ''f.txt''] (Some [(''a'', ''X''), (''X'', ''yy''), (''q'', ''z'')]) None False
        = (Inr r, example_fs([''tmp'', ''f.txt''] \<mapsto> File ''yyyybyyyy''))"
     and m: "\<forall>i<3. er_replacements_made r (fst ([(''a'', ''X''), (''X'', ''yy''), (''q'', ''z'')] ! i)) =
                 (if count_before ''aXbXa'' [(''a'', ''X''), (''X'', ''yy''), (''q'', ''z'')] i > 0
                  then Some (count_before ''aXbXa'' [(''a'', ''X''), (''X'', ''yy''), (''q'', ''z'')] i) else None)"
    unfolding u s by auto
  from m [rule_format, of 0] m [rule_format, of "Suc 0"] m [rule_format, of 2] r
  show ?thesis by (simp add: c)
qed

section \<open>Lines of a text\<close>

lemma linebreak_LF [simp]: "is_linebreak LF"
  by (simp add: is_linebreak_def LF_def)

lemma linebreak_CR [simp]: "is_linebreak CR"
  by (simp add: is_linebreak_def CR_def)

lemma LF_neq_CR [simp]: "LF \<noteq> CR" "CR \<noteq> LF"
  by (simp_all add: LF_def CR_def)

lemma splitlines_break:
  "is_linebreak c \<Longrightarrow> c \<noteq> CR \<Longrightarrow> splitlines (c # xs) = [] # splitlines xs"
  by (cases xs) simp_all

lemma splitlines_plain:
  "\<not> is_linebreak c \<Longrightarrow> splitlines (c # xs) = cons_first c (splitlines xs)"
  by (cases xs) auto

lemma splitlines_CR:
  "splitlines (CR # xs) = [] # splitlines (case xs of [] \<Rightarrow> [] | d # ds \<Rightarrow> if d = LF then ds else xs)"
  by (cases xs) simp_all

lemma cons_first_not_Nil [simp]: "cons_first c ls \<noteq> []"
  by (cases ls) simp_all

lemma splitlines_Nil_iff [simp]: "splitlines s = [] \<longleftrightarrow> s = []"
  by (induction s rule: splitlines.induct) simp_all

lemma universal_newlines_Nil_iff [simp]: "universal_newlines s = [] \<longleftrightarrow> s = []"
  by (induction s rule: universal_newlines.induct) simp_all

lemma splitlines_universal_newlines: "splitlines (universal_newlines s) = splitlines s"
proof (induction s rule: universal_newlines.induct)
  case 1
  show ?case by simp
next
  case (2 c)
  show ?case by simp
next
  case (3 c d ds)
  show ?case
  proof (cases "c = CR")
    case True
    with 3 show ?thesis by (simp add: splitlines_break)
  next
    case False
    show ?thesis
    proof (cases "is_linebreak c")
      case True
      with False 3 show ?thesis by (simp add: splitlines_break)
    next
      case nb: False
      with False 3 show ?thesis by (simp add: splitlines_plain)
    qed
  qed
qed

lemma universal_newlines_no_CR: "CR \<notin> set (universal_newlines s)"
  by (induction s rule: universal_newlines.induct) auto

lemma universal_newlines_last_LF:
  "s \<noteq> [] \<Longrightarrow> last s = LF \<Longrightarrow> last (universal_newlines s) = LF"
  by (induction s rule: universal_newlines.induct) (auto split: if_splits)

lemma join_nl_Cons: "ls \<noteq> [] \<Longrightarrow> join_nl (l # ls) = l @ LF # join_nl ls"
  by (cases ls) simp_all

lemma join_nl_cons_first: "ls \<noteq> [] \<Longrightarrow> join_nl (cons_first c ls) = c # join_nl ls"
  by (cases ls rule: join_nl.cases) simp_all

lemma join_splitlines:
  "CR \<notin> set t \<Longrightarrow>
   join_nl (splitlines t)
     = map nl_norm (if t \<noteq> [] \<and> is_linebreak (last t) then butlast t else t)"
proof (induction t rule: splitlines.induct)
  case 1
  show ?case by simp
next
  case (2 c)
  show ?case by (simp add: nl_norm_def)
next
  case (3 c d ds)
  from "3.prems" have c: "c \<noteq> CR" and rest: "CR \<notin> set (d # ds)" by auto
  have ne: "splitlines (d # ds) \<noteq> []" by simp
  show ?case
  proof (cases "is_linebreak c")
    case True
    with c "3.IH"(2) rest show ?thesis
      by (simp add: join_nl_Cons [OF ne] nl_norm_def)
  next
    case False
    with c "3.IH"(3) rest show ?thesis
      by (simp add: join_nl_cons_first [OF ne] nl_norm_def)
  qed
qed

lemma py_slice_all: "py_slice xs 0 (int (length xs)) = xs"
  by (simp add: py_slice_def)

lemma str_int_0: "str_int 0 = ''0''"
  by code_simp

lemma str_int_1: "str_int 1 = ''1''"
  by code_simp

section \<open>Properties of \<open>show_file\<close>\<close>

text \<open>
  Claim C9. An existing file whose text is empty has no lines, so \<open>show_file\<close> answers
  with \<open>success\<close> false and the message that the start line is beyond the file length,
  whatever \<open>start_line\<close> and \<open>num_lines\<close> are. The empty text is the only one with no
  lines.
\<close>

theorem show_file_empty_fails:
  assumes "node_at fs p = Some (File [])"
  shows "show_file fs p start_line num_lines
           = Inr (show_failed (''Start line '' @ str_int (max 1 start_line)
                    @ '' is beyond the file length (0 lines)'') 0)
         \<and> \<not> sr_success (show_failed (''Start line '' @ str_int (max 1 start_line)
                    @ '' is beyond the file length (0 lines)'') 0)
         \<and> (splitlines (universal_newlines text) = [] \<longleftrightarrow> text = [])"
  using assms
  by (simp add: show_file_def existing_path read_text_file try_except_def show_failed_def Let_def
      str_int_0)

theorem show_file_empty_fails_witness:
  "show_file (example_fs([''tmp'', ''empty''] \<mapsto> File [])) [''tmp'', ''empty''] 1 None
     = Inr \<lparr>sr_success = False,
            sr_error = Some ''Start line 1 is beyond the file length (0 lines)'',
            sr_content = [], sr_lines_shown = 0, sr_total_lines = 0,
            sr_start_line = None, sr_end_line = None\<rparr>"
  using show_file_empty_fails [of "example_fs([''tmp'', ''empty''] \<mapsto> File [])"
      "[''tmp'', ''empty'']" 1 None]
  by (simp add: node_at_def show_failed_def str_int_1)


lemma write_file_success:
  assumes "write_file fs p content ModeW = (Inr w, fs')" and "wr_success w"
  shows "node_at fs' p = Some (File content)"
proof -
  from assms obtain fs'' where o: "open_write fs p ModeW content = Inr fs''"
    by (cases "open_write fs p ModeW content") (auto simp: write_file_def)
  with assms have fs': "fs' = fs''" by (simp add: write_file_def)
  from o have ok: "\<not> name_too_long p"
    by (auto simp: open_write_def split: if_splits)
  with o have "p \<noteq> []" by (auto simp: open_write_def node_at_def)
  moreover from o ok have "fs'' = fs(p \<mapsto> File content)"
    by (auto simp: open_write_def split: option.splits node.splits)
  ultimately show ?thesis using ok by (simp add: fs' node_at_def)
qed

text \<open>
  Claim C8, as stated, fails for the empty content: the write succeeds and \<open>show_file\<close>
  then reports a start line beyond the file length.
\<close>

theorem write_show_empty_counterexample:
  "fst (write_file example_fs [''tmp'', ''new.txt''] [] ModeW)
     = Inr \<lparr>wr_success = True, wr_error = None\<rparr>
   \<and> show_file (snd (write_file example_fs [''tmp'', ''new.txt''] [] ModeW))
         [''tmp'', ''new.txt''] 1 None
     = Inr \<lparr>sr_success = False,
            sr_error = Some ''Start line 1 is beyond the file length (0 lines)'',
            sr_content = [], sr_lines_shown = 0, sr_total_lines = 0,
            sr_start_line = None, sr_end_line = None\<rparr>"
  by (simp add: write_file_def open_write_def node_at_def example_fs_def show_file_def
      path_exists_def read_text_def try_except_def show_failed_def Let_def str_int_0 str_int_1)

text \<open>
  Claim C8, amended. When \<open>write_file(path, content, "w")\<close> reports success and the
  content is not empty, \<open>show_file(path)\<close> with its default arguments succeeds: its
  content is the lines of the written content joined by \<open>\n\<close>, and it shows all of them.
\<close>

theorem write_then_show_roundtrip:
  assumes "write_file fs p content ModeW = (Inr w, fs')" and "wr_success w"
    and "content \<noteq> []"
  shows "show_file fs' p 1 None
     = Inr \<lparr>sr_success = True, sr_error = None,
            sr_content = join_nl (splitlines content),
            sr_lines_shown = int (length (splitlines content)),
            sr_total_lines = int (length (splitlines content)),
            sr_start_line = Some 1,
            sr_end_line = Some (int (length (splitlines content)))\<rparr>"
proof -
  have n: "node_at fs' p = Some (File content)"
    by (rule write_file_success [OF assms(1,2)])
  have ne: "splitlines content \<noteq> []" using assms(3) by simp
  then have pos: "\<not> 1 > int (length (splitlines content))"
    by (cases "splitlines content") simp_all
  show ?thesis
    using pos
    by (simp add: show_file_def existing_path [OF n] read_text_file [OF n] try_except_def
        Let_def splitlines_universal_newlines py_slice_all)
qed

theorem write_then_show_roundtrip_witness:
  "show_file (snd (write_file example_fs [''tmp'', ''new.txt''] (''ab'' @ [CR, LF] @ ''c'' @ [LF]) ModeW))
       [''tmp'', ''new.txt''] 1 None
     = Inr \<lparr>sr_success = True, sr_error = None, sr_content = ''ab'' @ [LF] @ ''c'',
            sr_lines_shown = 2, sr_total_lines = 2, sr_start_line = Some 1,
            sr_end_line = Some 2\<rparr>"
proof -
  have w: "write_file example_fs [''tmp'', ''new.txt''] (''ab'' @ [CR, LF] @ ''c'' @ [LF]) ModeW
             = (Inr \<lparr>wr_success = True, wr_error = None\<rparr>,
                snd (write_file example_fs [''tmp'', ''new.txt''] (''ab'' @ [CR, LF] @ ''c'' @ [LF]) ModeW))"
    by (simp add: write_file_def open_write_def node_at_def example_fs_def)
  have s: "splitlines (''ab'' @ [CR, LF] @ ''c'' @ [LF]) = [''ab'', ''c'']"
    by (simp add: is_linebreak_def CR_def LF_def)
  show ?thesis
    using write_then_show_roundtrip [OF w, unfolded s] by simp
qed

section \<open>Properties of \<open>search_in_file\<close>\<close>

lemma search_loop_unlimited:
  "\<not> max_matches > 0 \<Longrightarrow>
   search_loop rx max_matches acc i ls = acc @ matching_entries rx i ls"
  by (induction ls arbitrary: acc i) (simp_all add: Let_def)

lemma search_loop_capped:
  "max_matches > 0 \<Longrightarrow> int (length acc) < max_matches \<Longrightarrow>
   search_loop rx max_matches acc i ls
     = acc @ take (nat max_matches - length acc) (matching_entries rx i ls)"
proof (induction ls arbitrary: acc i)
  case Nil
  show ?case by simp
next
  case (Cons l ls)
  show ?case
  proof (cases "rx l")
    case False
    with Cons show ?thesis by simp
  next
    case True
    let ?e = "\<lparr>me_line_number = i, me_content = rstrip_nl l\<rparr>"
    from Cons.prems have pos: "nat max_matches - length acc = Suc (nat max_matches - Suc (length acc))"
      by linarith
    show ?thesis
    proof (cases "int (length (acc @ [?e])) \<ge> max_matches")
      case full: True
      with Cons.prems have "nat max_matches - Suc (length acc) = 0" by simp
      with True full Cons.prems pos show ?thesis by (simp add: Let_def)
    next
      case notfull: False
      then have lt: "int (length (acc @ [?e])) < max_matches" by simp
      from Cons.IH [OF Cons.prems(1) lt, of "i + 1"] True notfull pos show ?thesis
        by (simp add: Let_def)
    qed
  qed
qed

lemma search_loop_eq:
  "search_loop rx max_matches [] 1 ls
     = (if max_matches > 0 then take (nat max_matches) (matching_entries rx 1 ls)
        else matching_entries rx 1 ls)"
  using search_loop_unlimited [of max_matches rx "[]" 1 ls]
        search_loop_capped [of max_matches "[]" rx 1 ls]
  by simp

text \<open>
  Claim C7. On a readable file and a pattern that compiles, \<open>search_in_file\<close> returns
  the first \<open>max_matches\<close> matches when \<open>max_matches\<close> is positive and all the matches
  otherwise; \<open>truncated\<close> says that the cap is positive and was reached. When the file has
  at least \<open>max_matches\<close> matching lines, exactly \<open>max_matches\<close> matches are returned and
  \<open>truncated\<close> is true.
\<close>

theorem search_returns_at_most_cap:
  assumes "node_at fs p = Some (File text)"
    and "re_compile pattern (\<not> case_sensitive) = Inr rx"
  shows "\<exists>r. search_in_file re_compile fs p pattern case_sensitive max_matches = Inr r
          \<and> se_success r
          \<and> se_matches r
              = (if max_matches > 0
                 then take (nat max_matches)
                        (matching_entries rx 1 (file_lines (universal_newlines text)))
                 else matching_entries rx 1 (file_lines (universal_newlines text)))
          \<and> se_match_count r = int (length (se_matches r))
          \<and> (max_matches > 0 \<longrightarrow> se_match_count r \<le> max_matches)
          \<and> se_truncated r
              = Some (max_matches > 0
                      \<and> int (length (matching_entries rx 1
                                       (file_lines (universal_newlines text)))) \<ge> max_matches)
          \<and> (max_matches > 0
               \<and> int (length (matching_entries rx 1 (file_lines (universal_newlines text))))
                    \<ge> max_matches
              \<longrightarrow> se_match_count r = max_matches \<and> se_truncated r = Some True)"
  using assms
  by (auto simp add: search_in_file_def existing_path read_text_file try_except_def Let_def
      search_loop_eq)

theorem search_returns_at_most_cap_witness:
  "\<exists>r. search_in_file literal_re
          (example_fs([''tmp'', ''five''] \<mapsto>
             File (''ax'' @ [LF] @ ''b'' @ [LF] @ ''xx'' @ [LF] @ ''x'' @ [LF] @ ''cx'' @ [LF]
                   @ ''x'')))
          [''tmp'', ''five''] ''x'' True 2 = Inr r
      \<and> se_matches r = [\<lparr>me_line_number = 1, me_content = ''ax''\<rparr>,
                         \<lparr>me_line_number = 3, me_content = ''xx''\<rparr>]
      \<and> se_match_count r = 2
      \<and> se_truncated r = Some True"
proof -
  let ?text = "''ax'' @ [LF] @ ''b'' @ [LF] @ ''xx'' @ [LF] @ ''x'' @ [LF] @ ''cx'' @ [LF] @ ''x''"
  let ?fs = "example_fs([''tmp'', ''five''] \<mapsto> File ?text)"
  let ?rx = "\<lambda>line. str_count line ''x'' > 0"
  have n: "node_at ?fs [''tmp'', ''five''] = Some (File ?text)"
    by (simp add: node_at_def)
  have c: "literal_re ''x'' (\<not> True) = Inr ?rx"
    by (simp add: literal_re_def)
  have m: "matching_entries ?rx 1 (file_lines (universal_newlines ?text))
             = [\<lparr>me_line_number = 1, me_content = ''ax''\<rparr>,
                \<lparr>me_line_number = 3, me_content = ''xx''\<rparr>,
                \<lparr>me_line_number = 4, me_content = ''x''\<rparr>,
                \<lparr>me_line_number = 5, me_content = ''cx''\<rparr>,
                \<lparr>me_line_number = 6, me_content = ''x''\<rparr>]"
    by code_simp
  show ?thesis
    using search_returns_at_most_cap
      [where re_compile = literal_re and pattern = "''x''" and case_sensitive = True
         and rx = ?rx and max_matches = 2, OF n c, unfolded m]
    by auto
qed

section \<open>Properties of a batch of line operations\<close>

lemma apply_failure_keeps_lines:
  "\<not> outcome_success (snd (apply_line_op ls op)) \<Longrightarrow> fst (apply_line_op ls op) = ls"
  by (auto simp add: apply_line_op_def do_insert_def do_replace_def do_delete_def Let_def
      split: if_splits)

lemma ops_loop_snd:
  "snd (ops_loop lines performed ops) = performed @ snd (ops_loop lines [] ops)"
proof (induction ops arbitrary: lines performed)
  case Nil
  show ?case by simp
next
  case (Cons op ops)
  obtain l' out where a: "apply_line_op lines op = (l', out)" by (cases "apply_line_op lines op")
  show ?case
    using Cons.IH [of l' "performed @ [out]"] Cons.IH [of l' "[out]"]
    by (simp add: a)
qed

lemma ops_loop_Cons:
  "ops_loop lines [] (op # ops)
     = (fst (ops_loop (fst (apply_line_op lines op)) [] ops),
        snd (apply_line_op lines op) # snd (ops_loop (fst (apply_line_op lines op)) [] ops))"
proof -
  obtain l' out where a: "apply_line_op lines op = (l', out)" by (cases "apply_line_op lines op")
  have "ops_loop lines [] (op # ops) = ops_loop l' [out] ops" by (simp add: a)
  also have "\<dots> = (fst (ops_loop l' [] ops), [out] @ snd (ops_loop l' [] ops))"
    using ops_loop_fst [of l' "[out]" ops] ops_loop_fst [of l' "[]" ops]
      ops_loop_snd [of l' "[out]" ops]
    by (metis prod.collapse)
  finally show ?thesis by (simp add: a)
qed

declare ops_loop.simps(2) [simp del]




lemma ops_loop_all_failed:
  "\<forall>out\<in>set (snd (ops_loop lines [] ops)). \<not> outcome_success out \<Longrightarrow>
   fst (ops_loop lines [] ops) = lines"
proof (induction ops arbitrary: lines)
  case Nil
  show ?case by simp
next
  case (Cons op ops)
  from Cons.prems have f: "\<not> outcome_success (snd (apply_line_op lines op))"
    and r: "\<forall>out\<in>set (snd (ops_loop (fst (apply_line_op lines op)) [] ops)). \<not> outcome_success out"
    by (simp_all add: ops_loop_Cons)
  have same: "fst (apply_line_op lines op) = lines"
    by (rule apply_failure_keeps_lines [OF f])
  from Cons.IH [of lines] r show ?case
    by (simp add: ops_loop_Cons same)
qed

lemma strs_of_map_Str: "strs_of (map Str ss) i = Inr ss"
  by (induction ss arbitrary: i) simp_all

lemma join_lines_strings: "join_lines (map Str ss) = Inr (join_nl ss)"
  by (simp add: join_lines_def strs_of_map_Str)




lemma edit_body_line_ops:
  assumes isfile: "node_at fs p = Some (File text)"
    and ne: "ops \<noteq> []"
    and j: "join_lines (fst (run_line_ops (lines_before_ops text replacements) ops)) = Inr c'"
  shows "\<exists>r. edit_body fs p replacements (Some ops) = (Inr r, fs(p \<mapsto> File c'))
          \<and> er_success r
          \<and> er_original_size r = Some (int (length (universal_newlines text)))
          \<and> er_new_size r = Some (int (length c'))
          \<and> er_changed r = Some (universal_newlines text \<noteq> c')
          \<and> er_line_operations_performed r
               = snd (run_line_ops (lines_before_ops text replacements) ops)"
proof -
  have rd: "read_text fs p = Inr (universal_newlines text)"
    by (rule read_text_file [OF isfile])
  have wr: "open_write fs p ModeW c = Inr (fs(p \<mapsto> File c))" for c
    by (rule open_write_file [OF isfile])
  consider (none) "replacements = None" | (empty) "replacements = Some []"
    | (some) rs where "replacements = Some rs" "rs \<noteq> []"
    by (cases replacements) auto
  then show ?thesis
  proof cases
    case none
    with j ne show ?thesis
      unfolding edit_body_def rd
      by (simp add: wr split_beta lines_before_ops_def sequential_replace_def)
  next
    case empty
    with j ne show ?thesis
      unfolding edit_body_def rd
      by (simp add: wr split_beta lines_before_ops_def sequential_replace_def)
  next
    case some
    with j ne show ?thesis
      unfolding edit_body_def rd
      by (simp add: wr split_beta lines_before_ops_def replace_loop_content)
  qed
qed



lemma edit_file_existing:
  "node_at fs p = Some (File text) \<Longrightarrow>
   edit_file fs p replacements line_operations create
     = edit_body fs p replacements line_operations"
  by (simp add: edit_file_def existing_path)






text \<open>
  Claim C10. When the text of the file ends with a newline and every operation of a
  non-empty batch records a failure, \<open>edit_file\<close> still writes the file: the lines of the
  text joined by \<open>\n\<close>, which is the text without its last character (and with every
  other line boundary written as \<open>\n\<close>). It reports \<open>success\<close> and \<open>changed\<close> true.
\<close>

theorem all_failed_batch_still_rewrites:
  assumes "node_at fs p = Some (File text)"
    and "text \<noteq> []" and "last text = LF"
    and "ops \<noteq> []"
    and "replacements = None \<or> replacements = Some []"
    and "\<forall>out\<in>set (snd (run_line_ops (map Str (splitlines (universal_newlines text))) ops)).
           \<not> outcome_success out"
  shows "\<exists>r. edit_file fs p replacements (Some ops) create
            = (Inr r, fs(p \<mapsto> File (join_nl (splitlines (universal_newlines text)))))
          \<and> er_success r
          \<and> er_changed r = Some True
          \<and> er_line_operations_performed r
               = snd (run_line_ops (map Str (splitlines (universal_newlines text))) ops)
          \<and> join_nl (splitlines (universal_newlines text))
               = map nl_norm (butlast (universal_newlines text))
          \<and> er_new_size r = Some (int (length (universal_newlines text)) - 1)"
proof -
  let ?orig = "universal_newlines text"
  let ?l0 = "map Str (splitlines ?orig)"
  have l0: "lines_before_ops text replacements = ?l0"
    using assms(5) by (auto simp: lines_before_ops_def sequential_replace_def)
  have same: "fst (run_line_ops ?l0 ops) = ?l0"
    using assms(6) unfolding run_line_ops_def by (rule ops_loop_all_failed)
  have j: "join_lines (fst (run_line_ops (lines_before_ops text replacements) ops))
             = Inr (join_nl (splitlines ?orig))"
    by (simp add: l0 same join_lines_strings)
  have ne: "?orig \<noteq> []" using assms(2) by simp
  have lst: "last ?orig = LF"
    by (rule universal_newlines_last_LF [OF assms(2,3)])
  have shape: "join_nl (splitlines ?orig) = map nl_norm (butlast ?orig)"
    using join_splitlines [of "universal_newlines text"] universal_newlines_no_CR [of "text"]
      ne lst by simp
  have len: "int (length (join_nl (splitlines ?orig))) = int (length ?orig) - 1"
    using ne by (simp add: shape of_nat_diff Suc_leI)
  then have diff: "?orig \<noteq> join_nl (splitlines ?orig)"
    by auto
  from edit_body_line_ops [OF assms(1) assms(4) j]
  obtain r where r: "edit_body fs p replacements (Some ops)
                       = (Inr r, fs(p \<mapsto> File (join_nl (splitlines ?orig))))"
    "er_success r"
    "er_new_size r = Some (int (length (join_nl (splitlines ?orig))))"
    "er_changed r = Some (?orig \<noteq> join_nl (splitlines ?orig))"
    "er_line_operations_performed r = snd (run_line_ops (lines_before_ops text replacements) ops)"
    by blast
  have a: "edit_file fs p replacements (Some ops) create
             = (Inr r, fs(p \<mapsto> File (join_nl (splitlines ?orig))))"
    by (simp add: edit_file_existing [OF assms(1)] r(1))
  from a r(2) r(4) diff r(5) l0 shape r(3) len show ?thesis
    by auto
qed

theorem all_failed_batch_still_rewrites_witness:
  "\<exists>r. edit_file (example_fs([''tmp'', ''ab''] \<mapsto> File (''a'' @ [LF] @ ''b'' @ [LF])))
          [''tmp'', ''ab''] None
          (Some [mk_replace 10 (Str ''x''), mk_other (Some ''frobnicate'')]) False
        = (Inr r, example_fs([''tmp'', ''ab''] \<mapsto> File (''a'' @ [LF] @ ''b'')))
      \<and> er_success r
      \<and> er_changed r = Some True
      \<and> er_new_size r = Some 3"
proof -
  let ?text = "''a'' @ [LF] @ ''b'' @ [LF]"
  let ?fs = "example_fs([''tmp'', ''ab''] \<mapsto> File ?text)"
  let ?ops = "[mk_replace 10 (Str ''x''), mk_other (Some ''frobnicate'')]"
  have n: "node_at ?fs [''tmp'', ''ab''] = Some (File ?text)"
    by (simp add: node_at_def)
  have t: "?text \<noteq> []" "last ?text = LF" by simp_all
  have ne: "?ops \<noteq> []" by simp
  have rp: "(None :: (string \<times> string) list option) = None \<or> None = Some []" by simp
  have outs: "snd (run_line_ops (map Str (splitlines (universal_newlines ?text))) ?ops)
                = [ReplaceFailed 10 ''Line 10 is out of range (1-2)'',
                   UnknownFailed ''frobnicate'' ''Unknown operation type: frobnicate'']"
    by code_simp
  have f: "\<forall>out\<in>set (snd (run_line_ops (map Str (splitlines (universal_newlines ?text))) ?ops)).
             \<not> outcome_success out"
    unfolding outs by simp
  have u: "universal_newlines ?text = ?text"
    by code_simp
  have sp: "join_nl (splitlines ?text) = ''a'' @ [LF] @ ''b''"
    by code_simp
  show ?thesis
    using all_failed_batch_still_rewrites [OF n t ne rp f, of False, unfolded u sp]
    by auto
qed

section \<open>Failures and the caller\<close>





end
